theory Spec2Isabelle
  imports Main "HOL-Library.AList"
begin

section \<open>The remote resource cache of \<open>neutron/agent/resource_cache.py\<close>\<close>

text \<open>
  The development embeds the class \<open>RemoteResourceCache\<close>: a per-type dictionary from
  resource id to the latest accepted resource, and a per-type set of deleted ids.
  Dictionaries whose iteration order is observable (the per-type dictionary, the result of
  \<open>to_dict\<close>, the \<open>filters\<close> argument) are association lists with Python's behaviour:
  assignment to an existing key keeps its position (\<open>AList.update\<close>), \<open>pop\<close> removes
  the key (\<open>AList.delete\<close>), \<open>get\<close> is \<open>map_of\<close>. The two outer dictionaries, keyed by
  resource type, are association lists as well. Every \<open>raise\<close> of the source is a value of type \<open>error\<close>;
  a method that mutates the cache returns the cache it leaves behind together with its
  outcome, so that the state left by a raising call is part of the model. The calls of
  \<open>LOG.debug\<close> have no effect on the cache and are left out; \<open>registry.notify\<close> is the
  notification returned by the method. The collaborators (\<open>registry.notify\<close>,
  \<open>bulk_pull\<close>) are taken to return normally.
\<close>

subsection \<open>Resources\<close>

datatype val = VNone | VInt int | VStr string

text \<open>
  Modelled from the spec: the resource objects (the versioned-object classes of
  \<open>neutron.objects\<close> are not among the sources). The specification describes a resource as
  \<open>{id: string, revision_number: integer, updated_at: timestamp, ...type-specific fields}\<close>.
  The cache reads \<open>resource.id\<close>, \<open>resource.revision_number\<close>, \<open>resource.to_dict()\<close>
  and \<open>getattr(resource, k)\<close> and nothing else, so a resource is its id, its revision
  number and the list of its remaining named fields (\<open>updated_at\<close> is one of them when
  the resource carries it). An object is true in a Python condition, so \<open>if existing\<close>
  tests \<open>existing is not None\<close>.
\<close>

record resource =
  res_id :: string
  revision_number :: int
  other_fields :: "(string \<times> val) list"

text \<open>
  Modelled from the spec: \<open>to_dict\<close>, the canonical mapping from field name to value. It
  has one entry per field name; \<open>id\<close> and \<open>revision_number\<close> are the attributes of the
  same names.
\<close>

definition to_dict :: "resource \<Rightarrow> (string \<times> val) list" where
  "to_dict r =
     AList.clearjunk ((''id'', VStr (res_id r)) #
                      (''revision_number'', VInt (revision_number r)) # other_fields r)"

datatype error =
    RuntimeError string   \<comment> \<open>\<open>RuntimeError("Resource cache not tracking %s" % rtype)\<close>\<close>
  | KeyError string       \<comment> \<open>a subscript of one of the two outer dictionaries with a missing key\<close>
  | AttributeError string \<comment> \<open>\<open>getattr\<close> of a name the object does not have\<close>

text \<open>Modelled from the spec: the attributes of a resource are its fields.\<close>

definition getattr :: "resource \<Rightarrow> string \<Rightarrow> error + val" where
  "getattr obj k =
     (case map_of (to_dict obj) k of None \<Rightarrow> Inl (AttributeError k) | Some v \<Rightarrow> Inr v)"

text \<open>\<open>d.get(k)\<close> of a Python dictionary: \<open>None\<close> for a missing key.\<close>

definition dict_get :: "(string \<times> val) list \<Rightarrow> string \<Rightarrow> val" where
  "dict_get d k = (case map_of d k of None \<Rightarrow> VNone | Some v \<Rightarrow> v)"

subsection \<open>The cache\<close>

record cache =
  resource_types :: "string list"
  cache_by_type_and_id :: "(string \<times> (string \<times> resource) list) list"
  deleted_ids_by_type :: "(string \<times> string set) list"

text \<open>\<open>__init__\<close>: one empty dictionary and one empty set per tracked type.\<close>

definition init :: "string list \<Rightarrow> cache" where
  "init rts =
     \<lparr>resource_types = rts,
      cache_by_type_and_id = AList.clearjunk (map (\<lambda>rt. (rt, [])) rts),
      deleted_ids_by_type = AList.clearjunk (map (\<lambda>rt. (rt, {})) rts)\<rparr>"

definition type_cache :: "cache \<Rightarrow> string \<Rightarrow> error + (string \<times> resource) list" where
  "type_cache self rtype =
     (if rtype \<notin> set (resource_types self) then Inl (RuntimeError rtype)
      else case map_of (cache_by_type_and_id self) rtype of
             None \<Rightarrow> Inl (KeyError rtype)
           | Some d \<Rightarrow> Inr d)"

text \<open>\<open>self._type_cache(rtype)[key] = resource\<close>, on the dictionary \<open>d\<close> just read.\<close>

definition store :: "cache \<Rightarrow> string \<Rightarrow> (string \<times> resource) list \<Rightarrow> cache" where
  "store self rtype d =
     self\<lparr>cache_by_type_and_id := AList.update rtype d (cache_by_type_and_id self)\<rparr>"

subsection \<open>Reads\<close>

definition get_resource_by_id :: "cache \<Rightarrow> string \<Rightarrow> string \<Rightarrow> error + resource option" where
  "get_resource_by_id self rtype obj_id =
     (case type_cache self rtype of
        Inl e \<Rightarrow> Inl e
      | Inr d \<Rightarrow> Inr (map_of d obj_id))"

text \<open>
  The list comprehension \<open>[r for r in values if matcher(r)]\<close>; a matcher that raises ends
  the comprehension with its exception.
\<close>

fun comprehension :: "('a \<Rightarrow> error + bool) \<Rightarrow> 'a list \<Rightarrow> error + 'a list" where
  "comprehension matcher [] = Inr []"
| "comprehension matcher (r # rs) =
     (case matcher r of
        Inl e \<Rightarrow> Inl e
      | Inr b \<Rightarrow>
          (case comprehension matcher rs of
             Inl e \<Rightarrow> Inl e
           | Inr out \<Rightarrow> Inr (if b then r # out else out)))"

definition match_resources_with_func ::
  "cache \<Rightarrow> string \<Rightarrow> (resource \<Rightarrow> error + bool) \<Rightarrow> error + resource list" where
  "match_resources_with_func self rtype matcher =
     (case type_cache self rtype of
        Inl e \<Rightarrow> Inl e
      | Inr d \<Rightarrow> comprehension matcher (map snd d))"

text \<open>
  \<open>all(v == getattr(o, k) for k, v in filters.items())\<close>: the items are read in order and
  \<open>all\<close> stops at the first false one.
\<close>

fun match :: "(string \<times> val) list \<Rightarrow> resource \<Rightarrow> error + bool" where
  "match [] obj = Inr True"
| "match ((k, v) # rest) obj =
     (case getattr obj k of
        Inl e \<Rightarrow> Inl e
      | Inr a \<Rightarrow> if v = a then match rest obj else Inr False)"

definition get_resources ::
  "cache \<Rightarrow> string \<Rightarrow> (string \<times> val) list \<Rightarrow> error + resource list" where
  "get_resources self rtype filters = match_resources_with_func self rtype (match filters)"

subsection \<open>Staleness and the changed fields\<close>

definition is_stale :: "cache \<Rightarrow> string \<Rightarrow> resource \<Rightarrow> error + bool" where
  "is_stale self rtype resource =
     (case map_of (deleted_ids_by_type self) rtype of
        None \<Rightarrow> Inl (KeyError rtype)
      | Some deleted \<Rightarrow>
          if res_id resource \<in> deleted then Inr True
          else
            (case type_cache self rtype of
               Inl e \<Rightarrow> Inl e
             | Inr d \<Rightarrow>
                 (case map_of d (res_id resource) of
                    None \<Rightarrow> Inr False
                  | Some existing \<Rightarrow>
                      if revision_number existing > revision_number resource then Inr True
                      else Inr False)))"

definition get_changed_fields :: "resource option \<Rightarrow> resource \<Rightarrow> string set" where
  "get_changed_fields old new =
     (let new_d = to_dict new;
          changed = set (map fst new_d);
          changed' =
            (case old of
               None \<Rightarrow> changed
             | Some old_r \<Rightarrow>
                 fold (\<lambda>(k, v) ch. if v = dict_get new_d k then ch - {k} else ch)
                      (to_dict old_r) changed)
      in fold (\<lambda>ignore ch. ch - {ignore}) [''revision_number'', ''updated_at''] changed')"

subsection \<open>Updates and deletions\<close>

datatype 'ctx notification =
    AFTER_UPDATE string 'ctx "string set" "resource option" resource string
      \<comment> \<open>type, context, \<open>changed_fields\<close>, \<open>existing\<close>, \<open>updated\<close>, \<open>resource_id\<close>\<close>
  | AFTER_DELETE string 'ctx "resource option" string
      \<comment> \<open>type, context, \<open>existing\<close>, \<open>resource_id\<close>\<close>

definition record_resource_update ::
  "cache \<Rightarrow> 'ctx \<Rightarrow> string \<Rightarrow> resource \<Rightarrow> cache \<times> (error + 'ctx notification option)" where
  "record_resource_update self context rtype resource =
     (case is_stale self rtype resource of
        Inl e \<Rightarrow> (self, Inl e)
      | Inr stale \<Rightarrow>
          if stale then (self, Inr None)
          else
            (case type_cache self rtype of
               Inl e \<Rightarrow> (self, Inl e)
             | Inr d \<Rightarrow>
                 (let existing = map_of d (res_id resource);
                      self' = store self rtype (AList.update (res_id resource) resource d);
                      changed_fields = get_changed_fields existing resource
                  in if changed_fields = {} then (self', Inr None)
                     else (self', Inr (Some (AFTER_UPDATE rtype context changed_fields
                                               existing resource (res_id resource)))))))"

definition record_resource_delete ::
  "cache \<Rightarrow> 'ctx \<Rightarrow> string \<Rightarrow> string \<Rightarrow> cache \<times> (error + 'ctx notification)" where
  "record_resource_delete self context rtype resource_id =
     (case map_of (deleted_ids_by_type self) rtype of
        None \<Rightarrow> (self, Inl (KeyError rtype))
      | Some deleted \<Rightarrow>
          (let self1 = self\<lparr>deleted_ids_by_type :=
                              AList.update rtype (insert resource_id deleted)
                                (deleted_ids_by_type self)\<rparr>
           in case type_cache self1 rtype of
                Inl e \<Rightarrow> (self1, Inl e)
              | Inr d \<Rightarrow>
                  (let existing = map_of d resource_id;
                       self2 = store self1 rtype (AList.delete resource_id d)
                   in (self2, Inr (AFTER_DELETE rtype context existing resource_id)))))"

subsection \<open>The bulk load\<close>

text \<open>
  \<open>bulk_flood_cache\<close>; the argument \<open>bulk_pull\<close> gives, for each type, the resources
  that \<open>puller.bulk_pull(context, rtype)\<close> returns.
\<close>

fun flood_type :: "cache \<Rightarrow> string \<Rightarrow> resource list \<Rightarrow> cache \<times> (error + unit)" where
  "flood_type self rtype [] = (self, Inr ())"
| "flood_type self rtype (resource # rest) =
     (case type_cache self rtype of
        Inl e \<Rightarrow> (self, Inl e)
      | Inr d \<Rightarrow>
          flood_type (store self rtype (AList.update (res_id resource) resource d)) rtype rest)"

fun flood_types ::
  "cache \<Rightarrow> (string \<Rightarrow> resource list) \<Rightarrow> string list \<Rightarrow> cache \<times> (error + unit)" where
  "flood_types self bulk_pull [] = (self, Inr ())"
| "flood_types self bulk_pull (rtype # rtypes) =
     (case flood_type self rtype (bulk_pull rtype) of
        (self', Inl e) \<Rightarrow> (self', Inl e)
      | (self', Inr u) \<Rightarrow> flood_types self' bulk_pull rtypes)"

definition bulk_flood_cache ::
  "cache \<Rightarrow> (string \<Rightarrow> resource list) \<Rightarrow> cache \<times> (error + unit)" where
  "bulk_flood_cache self bulk_pull = flood_types self bulk_pull (resource_types self)"

subsection \<open>Observations on a cache\<close>

text \<open>The entry of a type's live mapping, and membership in a type's set of deleted ids.\<close>

definition live :: "cache \<Rightarrow> string \<Rightarrow> string \<Rightarrow> resource option" where
  "live self rtype obj_id =
     (case map_of (cache_by_type_and_id self) rtype of
        None \<Rightarrow> None
      | Some d \<Rightarrow> map_of d obj_id)"

definition tombstoned :: "cache \<Rightarrow> string \<Rightarrow> string \<Rightarrow> bool" where
  "tombstoned self rtype obj_id =
     (case map_of (deleted_ids_by_type self) rtype of
        None \<Rightarrow> False
      | Some deleted \<Rightarrow> obj_id \<in> deleted)"

text \<open>
  The shape that \<open>__init__\<close> builds and every method keeps: each tracked type has its
  dictionary (whose keys are distinct, as in every dictionary) and its set, and the two
  outer dictionaries have no other keys.
\<close>

definition well_formed :: "cache \<Rightarrow> bool" where
  "well_formed self =
     (list_all
        (\<lambda>rt. (case map_of (cache_by_type_and_id self) rt of
                  None \<Rightarrow> False
                | Some d \<Rightarrow> distinct (map fst d))
              \<and> map_of (deleted_ids_by_type self) rt \<noteq> None)
        (resource_types self)
      \<and> list_all (\<lambda>rt. rt \<in> set (resource_types self))
           (map fst (cache_by_type_and_id self) @ map fst (deleted_ids_by_type self)))"

text \<open>Whether a call ended with a local notification.\<close>

definition emitted :: "error + 'ctx notification option \<Rightarrow> bool" where
  "emitted outcome = (case outcome of Inr (Some n) \<Rightarrow> True | _ \<Rightarrow> False)"



subsection \<open>Sequences of operations\<close>

datatype 'ctx operation =
    Bulk_flood "string \<Rightarrow> resource list"
  | Record_update 'ctx string resource
  | Record_delete 'ctx string string

fun perform :: "cache \<Rightarrow> 'ctx operation \<Rightarrow> cache" where
  "perform self (Bulk_flood bulk_pull) = fst (bulk_flood_cache self bulk_pull)"
| "perform self (Record_update context rtype resource) =
     fst (record_resource_update self context rtype resource)"
| "perform self (Record_delete context rtype resource_id) =
     fst (record_resource_delete self context rtype resource_id)"

definition run :: "cache \<Rightarrow> 'ctx operation list \<Rightarrow> cache" where
  "run self ops = foldl perform self ops"

fun is_push :: "'ctx operation \<Rightarrow> bool" where
  "is_push (Bulk_flood bulk_pull) = False"
| "is_push (Record_update context rtype resource) = True"
| "is_push (Record_delete context rtype resource_id) = True"

fun is_update :: "'ctx operation \<Rightarrow> bool" where
  "is_update (Record_update context rtype resource) = True"
| "is_update other = False"

subsection \<open>The statements of the specification, in its words\<close>

text \<open>
  The staleness rule: the id is tombstoned, or a live entry has a strictly greater
  revision number.
\<close>

definition stale_rule :: "cache \<Rightarrow> string \<Rightarrow> resource \<Rightarrow> bool" where
  "stale_rule self rtype resource =
     (tombstoned self rtype (res_id resource)
      \<or> (case live self rtype (res_id resource) of
            None \<Rightarrow> False
          | Some existing \<Rightarrow> revision_number resource < revision_number existing))"

text \<open>
  Unordered delivery: three updates \<open>r5\<close>, \<open>r3\<close>, \<open>r7\<close> applied in that order leave
  revision 7 stored, the first and the third emit a notification, and the second is
  ignored as stale.
\<close>

definition unordered_delivery ::
  "cache \<Rightarrow> 'ctx \<Rightarrow> string \<Rightarrow> resource \<Rightarrow> resource \<Rightarrow> resource \<Rightarrow> bool" where
  "unordered_delivery self context rtype r5 r3 r7 =
     (let first = record_resource_update self context rtype r5;
          second = record_resource_update (fst first) context rtype r3;
          third = record_resource_update (fst second) context rtype r7
      in map_option revision_number (live (fst third) rtype (res_id r7)) = Some 7
         \<and> emitted (snd first)
         \<and> is_stale (fst first) rtype r3 = Inr True \<and> second = (fst first, Inr None)
         \<and> emitted (snd third))"

text \<open>
  The changed fields: the field names whose values differ between the existing entry (if
  any) and the incoming resource, without \<open>revision_number\<close> and \<open>updated_at\<close>.
\<close>

definition differing_fields :: "resource option \<Rightarrow> resource \<Rightarrow> string set" where
  "differing_fields old new =
     (let old_d = (case old of None \<Rightarrow> [] | Some old_r \<Rightarrow> to_dict old_r);
          new_d = to_dict new
      in Set.filter (\<lambda>k. map_of old_d k \<noteq> map_of new_d k)
                    (set (map fst old_d) \<union> set (map fst new_d))
         - {''revision_number'', ''updated_at''})"

text \<open>
  An incoming resource brings a change: one of its fields, other than
  \<open>revision_number\<close> and \<open>updated_at\<close>, is missing from the existing resource or has
  another value there.
\<close>

definition changed_in_incoming :: "resource \<Rightarrow> resource \<Rightarrow> bool" where
  "changed_in_incoming old new =
     list_ex (\<lambda>(k, v). k \<notin> {''revision_number'', ''updated_at''}
                       \<and> map_of (to_dict old) k \<noteq> Some v)
             (to_dict new)"

text \<open>
  Two resources identical in all fields except \<open>revision_number\<close> and \<open>updated_at\<close>.
\<close>

definition same_but_revision :: "resource \<Rightarrow> resource \<Rightarrow> bool" where
  "same_but_revision old new =
     (Set.filter (\<lambda>k. map_of (to_dict old) k \<noteq> map_of (to_dict new) k)
                 (set (map fst (to_dict old)) \<union> set (map fst (to_dict new)))
        \<subseteq> {''revision_number'', ''updated_at''})"


subsection \<open>Example data\<close>

definition port :: "string \<Rightarrow> int \<Rightarrow> (string \<times> val) list \<Rightarrow> resource" where
  "port i n fs = \<lparr>res_id = i, revision_number = n, other_fields = fs\<rparr>"

definition ports :: cache where
  "ports = init [''port'']"

definition existing_a :: resource where
  "existing_a = port ''a'' 1 [(''name'', VStr ''x''), (''status'', VStr ''up'')]"

definition incoming_a :: resource where
  "incoming_a = port ''a'' 2 [(''name'', VStr ''x''), (''status'', VStr ''down'')]"

text \<open>The port \<open>a\<close> at revision 2 without its \<open>name\<close>, and at revision 0 with all its fields.\<close>

definition incoming_without_name :: resource where
  "incoming_without_name = port ''a'' 2 [(''status'', VStr ''up'')]"

definition stale_a :: resource where
  "stale_a = port ''a'' 0 [(''name'', VStr ''x''), (''status'', VStr ''up'')]"

definition pull_a :: "string \<Rightarrow> resource list" where
  "pull_a rtype = (if rtype = ''port'' then [existing_a] else [])"

text \<open>The cache that tracks ports and holds the port \<open>a\<close> at revision 1.\<close>

definition holding_a :: cache where
  "holding_a = fst (record_resource_update ports () ''port'' existing_a)"

section \<open>Basic facts\<close>

lemmas cache_defs =
  init_def type_cache_def store_def get_resource_by_id_def is_stale_def
  record_resource_update_def record_resource_delete_def get_changed_fields_def
  to_dict_def dict_get_def live_def tombstoned_def well_formed_def stale_rule_def
  match_resources_with_func_def get_resources_def getattr_def bulk_flood_cache_def
  emitted_def

lemmas example_defs =
  port_def ports_def existing_a_def incoming_a_def pull_a_def holding_a_def

lemma holding_a_eq:
  "holding_a = \<lparr>resource_types = [''port''],
                 cache_by_type_and_id = [(''port'', [(''a'', existing_a)])],
                 deleted_ids_by_type = [(''port'', {})]\<rparr>"
  by (simp add: cache_defs example_defs)

lemma store_simps [simp]:
  "resource_types (store self rtype d) = resource_types self"
  "deleted_ids_by_type (store self rtype d) = deleted_ids_by_type self"
  "map_of (cache_by_type_and_id (store self rtype d)) =
     (map_of (cache_by_type_and_id self))(rtype \<mapsto> d)"
  by (simp_all add: store_def update_conv')

lemma type_cache_Inr:
  "type_cache self rtype = Inr d \<longleftrightarrow>
     rtype \<in> set (resource_types self) \<and> map_of (cache_by_type_and_id self) rtype = Some d"
  by (auto simp: type_cache_def split: option.splits)

lemma type_cache_deleted_update [simp]:
  "type_cache (self\<lparr>deleted_ids_by_type := x\<rparr>) rtype = type_cache self rtype"
  by (simp add: type_cache_def)

lemma well_formed_iff:
  "well_formed self \<longleftrightarrow>
     (\<forall>rt \<in> set (resource_types self).
        (\<exists>d. map_of (cache_by_type_and_id self) rt = Some d \<and> distinct (map fst d))
        \<and> (\<exists>deleted. map_of (deleted_ids_by_type self) rt = Some deleted))
     \<and> fst ` set (cache_by_type_and_id self) \<subseteq> set (resource_types self)
     \<and> fst ` set (deleted_ids_by_type self) \<subseteq> set (resource_types self)"
  by (auto simp: well_formed_def list_all_iff split: option.splits)

lemma tracked_entries:
  assumes "well_formed self" and "rtype \<in> set (resource_types self)"
  obtains d deleted where
    "map_of (cache_by_type_and_id self) rtype = Some d"
    "distinct (map fst d)"
    "map_of (deleted_ids_by_type self) rtype = Some deleted"
    "type_cache self rtype = Inr d"
  using assms
  by (auto simp: well_formed_iff type_cache_def)

lemma untracked_entries:
  assumes "well_formed self" and "rtype \<notin> set (resource_types self)"
  shows "map_of (cache_by_type_and_id self) rtype = None"
    and "map_of (deleted_ids_by_type self) rtype = None"
  using assms by (auto simp: well_formed_iff map_of_eq_None_iff)

lemma well_formed_init: "well_formed (init rts)"
  by (auto simp: well_formed_iff init_def map_of_clearjunk map_of_map_restrict
        restrict_map_def dom_clearjunk)

lemma well_formed_store:
  "well_formed self \<Longrightarrow> distinct (map fst d) \<Longrightarrow> rtype \<in> set (resource_types self) \<Longrightarrow>
   well_formed (store self rtype d)"
  by (auto simp: well_formed_iff store_def update_conv' dom_update)

lemma well_formed_mark:
  "well_formed self \<Longrightarrow> rtype \<in> set (resource_types self) \<Longrightarrow>
   well_formed (self\<lparr>deleted_ids_by_type := AList.update rtype s (deleted_ids_by_type self)\<rparr>)"
  by (auto simp: well_formed_iff update_conv' dom_update)

lemma get_resource_by_id_live:
  "get_resource_by_id self rtype obj_id = Inr entry \<longleftrightarrow>
     rtype \<in> set (resource_types self)
     \<and> map_of (cache_by_type_and_id self) rtype \<noteq> None
     \<and> live self rtype obj_id = entry"
  by (auto simp: get_resource_by_id_def type_cache_def live_def split: option.splits)

lemma live_store:
  "live (store self rtype' d) rtype obj_id =
     (if rtype = rtype' then map_of d obj_id else live self rtype obj_id)"
  by (simp add: live_def)

lemma tombstoned_store [simp]:
  "tombstoned (store self rtype' d) rtype obj_id = tombstoned self rtype obj_id"
  by (simp add: tombstoned_def)

subsection \<open>The staleness test\<close>

lemma is_stale_rule:
  assumes "well_formed self" and "rtype \<in> set (resource_types self)"
  shows "is_stale self rtype resource = Inr (stale_rule self rtype resource)"
proof -
  from assms obtain d deleted where
    "map_of (cache_by_type_and_id self) rtype = Some d"
    "map_of (deleted_ids_by_type self) rtype = Some deleted"
    "type_cache self rtype = Inr d"
    by (rule tracked_entries)
  then show ?thesis
    by (simp add: is_stale_def stale_rule_def tombstoned_def live_def split: option.splits)
qed

lemma is_stale_False:
  assumes "is_stale self rtype resource = Inr False"
  shows "\<not> tombstoned self rtype (res_id resource)"
    and "live self rtype (res_id resource) = Some existing \<Longrightarrow>
           revision_number existing \<le> revision_number resource"
  using assms
  by (auto simp: is_stale_def tombstoned_def live_def type_cache_Inr
           split: option.splits if_splits sum.splits)

subsection \<open>What an update does to the cache\<close>

lemma update_frame [simp]:
  "resource_types (fst (record_resource_update self ctx rtype resource)) = resource_types self"
  "deleted_ids_by_type (fst (record_resource_update self ctx rtype resource)) =
     deleted_ids_by_type self"
  by (simp_all add: record_resource_update_def Let_def split: sum.splits)

lemma update_cases:
  obtains (unchanged) "fst (record_resource_update self ctx rtype resource) = self"
  | (stored) d where
      "is_stale self rtype resource = Inr False"
      "type_cache self rtype = Inr d"
      "fst (record_resource_update self ctx rtype resource) =
         store self rtype (AList.update (res_id resource) resource d)"
proof (cases "is_stale self rtype resource")
  case (Inl e)
  then show ?thesis by (intro unchanged) (simp add: record_resource_update_def)
next
  case (Inr stale)
  show ?thesis
  proof (cases stale)
    case True
    with Inr show ?thesis by (intro unchanged) (simp add: record_resource_update_def)
  next
    case False
    show ?thesis
    proof (cases "type_cache self rtype")
      case (Inl e)
      with Inr False show ?thesis by (intro unchanged) (simp add: record_resource_update_def)
    next
      case (Inr d)
      with \<open>is_stale self rtype resource = Inr stale\<close> False show ?thesis
        by (intro stored [of d]) (simp_all add: record_resource_update_def Let_def)
    qed
  qed
qed

lemma update_live:
  "live (fst (record_resource_update self ctx rtype' resource)) rtype obj_id =
     live self rtype obj_id
   \<or> (rtype = rtype' \<and> obj_id = res_id resource
        \<and> is_stale self rtype resource = Inr False
        \<and> live (fst (record_resource_update self ctx rtype' resource)) rtype obj_id =
            Some resource)"
proof (cases rule: update_cases [of self ctx rtype' resource])
  case unchanged
  then show ?thesis by simp
next
  case (stored d)
  then show ?thesis
    by (auto simp: live_store update_conv' type_cache_Inr live_def)
qed

lemma update_tombstoned [simp]:
  "tombstoned (fst (record_resource_update self ctx rtype' resource)) rtype obj_id =
     tombstoned self rtype obj_id"
  by (simp add: tombstoned_def)

lemma update_revision:
  assumes "live self rtype obj_id = Some before"
  shows "\<exists>after. live (fst (record_resource_update self ctx rtype' resource)) rtype obj_id =
                   Some after
                 \<and> revision_number before \<le> revision_number after"
  using update_live [of self ctx rtype' resource rtype obj_id] assms
  by (auto dest: is_stale_False(2))

lemma update_keeps_dicts:
  "map_of (cache_by_type_and_id self) rtype \<noteq> None \<Longrightarrow>
   map_of (cache_by_type_and_id (fst (record_resource_update self ctx rtype' resource))) rtype
     \<noteq> None"
  by (cases rule: update_cases [of self ctx rtype' resource]) auto

lemma run_Nil [simp]: "run self [] = self"
  by (simp add: run_def)

lemma run_Cons [simp]: "run self (op # ops) = run (perform self op) ops"
  by (simp add: run_def)

subsection \<open>What a deletion does to the cache\<close>

lemma delete_cases:
  obtains (unchanged)
      "map_of (deleted_ids_by_type self) rtype = None"
      "record_resource_delete self ctx rtype resource_id = (self, Inl (KeyError rtype))"
  | (marked) deleted e where
      "map_of (deleted_ids_by_type self) rtype = Some deleted"
      "type_cache self rtype = Inl e"
      "record_resource_delete self ctx rtype resource_id =
         (self\<lparr>deleted_ids_by_type :=
                  AList.update rtype (insert resource_id deleted) (deleted_ids_by_type self)\<rparr>,
          Inl e)"
  | (removed) deleted d where
      "map_of (deleted_ids_by_type self) rtype = Some deleted"
      "type_cache self rtype = Inr d"
      "record_resource_delete self ctx rtype resource_id =
         (store (self\<lparr>deleted_ids_by_type :=
                         AList.update rtype (insert resource_id deleted)
                           (deleted_ids_by_type self)\<rparr>)
                rtype (AList.delete resource_id d),
          Inr (AFTER_DELETE rtype ctx (map_of d resource_id) resource_id))"
proof (cases "map_of (deleted_ids_by_type self) rtype")
  case None
  then show ?thesis by (intro unchanged) (simp_all add: record_resource_delete_def)
next
  case (Some deleted)
  show ?thesis
  proof (cases "type_cache self rtype")
    case (Inl e)
    with Some show ?thesis
      by (intro marked [of deleted e]) (simp_all add: record_resource_delete_def)
  next
    case (Inr d)
    with Some show ?thesis
      by (intro removed [of deleted d]) (simp_all add: record_resource_delete_def Let_def)
  qed
qed

lemma delete_frame [simp]:
  "resource_types (fst (record_resource_delete self ctx rtype resource_id)) =
     resource_types self"
  by (cases rule: delete_cases [of self rtype ctx resource_id]) simp_all

lemma delete_tombstoned:
  "tombstoned self rtype obj_id \<Longrightarrow>
   tombstoned (fst (record_resource_delete self ctx rtype' resource_id)) rtype obj_id"
  by (cases rule: delete_cases [of self rtype' ctx resource_id])
     (auto simp: tombstoned_def update_conv')

lemma delete_live:
  "live (fst (record_resource_delete self ctx rtype' resource_id)) rtype obj_id =
     live self rtype obj_id
   \<or> live (fst (record_resource_delete self ctx rtype' resource_id)) rtype obj_id = None"
  by (cases rule: delete_cases [of self rtype' ctx resource_id])
     (auto simp: live_def update_conv' delete_conv' type_cache_Inr)

lemma well_formed_update:
  "well_formed self \<Longrightarrow> well_formed (fst (record_resource_update self ctx rtype resource))"
proof (cases rule: update_cases [of self ctx rtype resource])
  case unchanged
  assume "well_formed self"
  with unchanged show ?thesis by simp
next
  case (stored d)
  assume wf: "well_formed self"
  from stored(2) have tracked: "rtype \<in> set (resource_types self)"
    and d: "map_of (cache_by_type_and_id self) rtype = Some d"
    by (simp_all add: type_cache_Inr)
  from wf tracked d have "distinct (map fst d)"
    by (auto simp: well_formed_iff)
  then have "distinct (map fst (AList.update (res_id resource) resource d))"
    by (rule distinct_update)
  with wf tracked stored(3) show ?thesis
    by (simp add: well_formed_store)
qed

lemma well_formed_delete:
  "well_formed self \<Longrightarrow>
   well_formed (fst (record_resource_delete self ctx rtype resource_id))"
proof (cases rule: delete_cases [of self rtype ctx resource_id])
  case unchanged
  assume "well_formed self"
  with unchanged show ?thesis by simp
next
  case (marked deleted e)
  assume wf: "well_formed self"
  from wf marked(1) have "rtype \<in> set (resource_types self)"
    using untracked_entries(2) by fastforce
  with wf marked(3) show ?thesis
    by (simp add: well_formed_mark)
next
  case (removed deleted d)
  assume wf: "well_formed self"
  from removed(2) have tracked: "rtype \<in> set (resource_types self)"
    and d: "map_of (cache_by_type_and_id self) rtype = Some d"
    by (simp_all add: type_cache_Inr)
  from wf tracked d have "distinct (map fst d)"
    by (auto simp: well_formed_iff)
  then have "distinct (map fst (AList.delete resource_id d))"
    by (rule distinct_delete)
  with wf tracked removed(3) show ?thesis
    by (simp add: well_formed_store well_formed_mark)
qed

lemma delete_tracked:
  assumes "well_formed self" and "rtype \<in> set (resource_types self)"
  obtains deleted d where
    "map_of (deleted_ids_by_type self) rtype = Some deleted"
    "map_of (cache_by_type_and_id self) rtype = Some d"
    "record_resource_delete self ctx rtype resource_id =
       (store (self\<lparr>deleted_ids_by_type :=
                       AList.update rtype (insert resource_id deleted)
                         (deleted_ids_by_type self)\<rparr>)
              rtype (AList.delete resource_id d),
        Inr (AFTER_DELETE rtype ctx (map_of d resource_id) resource_id))"
proof -
  from assms obtain d deleted where
    "map_of (cache_by_type_and_id self) rtype = Some d"
    "map_of (deleted_ids_by_type self) rtype = Some deleted"
    "type_cache self rtype = Inr d"
    by (rule tracked_entries)
  then show ?thesis
    by (intro that [of deleted d]) (simp_all add: record_resource_delete_def Let_def)
qed

subsection \<open>Sequences of updates and deletions\<close>

lemma push_keeps_tombstone:
  assumes "is_push op" and "tombstoned self rtype obj_id" and "live self rtype obj_id = None"
  shows "tombstoned (perform self op) rtype obj_id \<and> live (perform self op) rtype obj_id = None"
proof (cases op)
  case (Bulk_flood bulk_pull)
  with assms(1) show ?thesis by simp
next
  case (Record_update ctx rtype' resource)
  from update_live [of self ctx rtype' resource rtype obj_id] assms(2,3)
  have "live (fst (record_resource_update self ctx rtype' resource)) rtype obj_id = None"
    by (auto dest: is_stale_False(1))
  with Record_update assms(2) show ?thesis by simp
next
  case (Record_delete ctx rtype' resource_id)
  from delete_live [of self ctx rtype' resource_id rtype obj_id] assms(3)
  have "live (fst (record_resource_delete self ctx rtype' resource_id)) rtype obj_id = None"
    by auto
  with Record_delete assms(2) show ?thesis by (simp add: delete_tombstoned)
qed

lemma push_keeps_well_formed:
  "is_push op \<Longrightarrow> well_formed self \<Longrightarrow> well_formed (perform self op)"
  by (cases op) (simp_all add: well_formed_update well_formed_delete)

lemma pushes_keep_tombstone:
  assumes "list_all is_push ops" and "tombstoned self rtype obj_id"
    and "live self rtype obj_id = None"
  shows "tombstoned (run self ops) rtype obj_id \<and> live (run self ops) rtype obj_id = None"
  using assms
proof (induction ops arbitrary: self)
  case Nil
  then show ?case by simp
next
  case (Cons op ops)
  from Cons.prems have "is_push op" and "list_all is_push ops" by simp_all
  with Cons.IH [of "perform self op"] push_keeps_tombstone [OF \<open>is_push op\<close> Cons.prems(2,3)]
  show ?case by simp
qed

subsection \<open>What the bulk load does to the cache\<close>

lemma flood_type_frame:
  "resource_types (fst (flood_type self rtype rs)) = resource_types self
   \<and> deleted_ids_by_type (fst (flood_type self rtype rs)) = deleted_ids_by_type self"
  by (induction rs arbitrary: self) (simp_all split: sum.splits)

lemma flood_types_frame:
  "resource_types (fst (flood_types self bulk_pull rtypes)) = resource_types self
   \<and> deleted_ids_by_type (fst (flood_types self bulk_pull rtypes)) = deleted_ids_by_type self"
proof (induction rtypes arbitrary: self)
  case Nil
  show ?case by simp
next
  case (Cons rtype rtypes)
  obtain self' outcome where step: "flood_type self rtype (bulk_pull rtype) = (self', outcome)"
    by (cases "flood_type self rtype (bulk_pull rtype)")
  with flood_type_frame [of self rtype "bulk_pull rtype"]
  have "resource_types self' = resource_types self"
    and "deleted_ids_by_type self' = deleted_ids_by_type self"
    by simp_all
  with step Cons.IH [of self'] show ?case
    by (cases outcome) simp_all
qed

lemma bulk_frame [simp]:
  "resource_types (fst (bulk_flood_cache self bulk_pull)) = resource_types self"
  "deleted_ids_by_type (fst (bulk_flood_cache self bulk_pull)) = deleted_ids_by_type self"
  by (simp_all add: bulk_flood_cache_def flood_types_frame)

lemma well_formed_flood_type:
  "well_formed self \<Longrightarrow> well_formed (fst (flood_type self rtype rs))"
proof (induction rs arbitrary: self)
  case Nil
  then show ?case by simp
next
  case (Cons resource rs)
  show ?case
  proof (cases "type_cache self rtype")
    case (Inl e)
    with Cons.prems show ?thesis by simp
  next
    case (Inr d)
    then have tracked: "rtype \<in> set (resource_types self)"
      and d: "map_of (cache_by_type_and_id self) rtype = Some d"
      by (simp_all add: type_cache_Inr)
    from Cons.prems tracked d have "distinct (map fst d)"
      by (auto simp: well_formed_iff)
    then have "distinct (map fst (AList.update (res_id resource) resource d))"
      by (rule distinct_update)
    with Cons.prems tracked
    have "well_formed (store self rtype (AList.update (res_id resource) resource d))"
      by (simp add: well_formed_store)
    with Inr Cons.IH show ?thesis by simp
  qed
qed

lemma well_formed_flood_types:
  "well_formed self \<Longrightarrow> well_formed (fst (flood_types self bulk_pull rtypes))"
proof (induction rtypes arbitrary: self)
  case Nil
  then show ?case by simp
next
  case (Cons rtype rtypes)
  obtain self' outcome where step: "flood_type self rtype (bulk_pull rtype) = (self', outcome)"
    by (cases "flood_type self rtype (bulk_pull rtype)")
  with well_formed_flood_type [OF Cons.prems, of rtype "bulk_pull rtype"]
  have "well_formed self'" by simp
  with step Cons.IH [of self'] show ?case
    by (cases outcome) simp_all
qed

lemma well_formed_bulk:
  "well_formed self \<Longrightarrow> well_formed (fst (bulk_flood_cache self bulk_pull))"
  by (simp add: bulk_flood_cache_def well_formed_flood_types)

lemma perform_keeps_well_formed:
  "well_formed self \<Longrightarrow> well_formed (perform self op)"
  by (cases op) (simp_all add: well_formed_bulk well_formed_update well_formed_delete)

lemma perform_keeps_types [simp]:
  "resource_types (perform self op) = resource_types self"
  by (cases op) simp_all

lemma perform_keeps_tombstone:
  "tombstoned self rtype obj_id \<Longrightarrow> tombstoned (perform self op) rtype obj_id"
  by (cases op) (simp_all add: delete_tombstoned, simp add: tombstoned_def)

lemma run_keeps_well_formed:
  "well_formed self \<Longrightarrow> well_formed (run self ops)"
  by (induction ops arbitrary: self) (simp_all add: perform_keeps_well_formed)

lemma run_keeps_types [simp]:
  "resource_types (run self ops) = resource_types self"
  by (induction ops arbitrary: self) simp_all

lemma run_keeps_tombstone:
  "tombstoned self rtype obj_id \<Longrightarrow> tombstoned (run self ops) rtype obj_id"
  by (induction ops arbitrary: self) (simp_all add: perform_keeps_tombstone)

subsection \<open>The changed fields\<close>

lemma fold_discard:
  "fold (\<lambda>(k, v) ch. if P k v then ch - {k} else ch) xs S =
     S - {k. \<exists>v. (k, v) \<in> set xs \<and> P k v}"
  by (induction xs arbitrary: S) (auto split: if_splits)

lemma to_dict_distinct [simp]: "distinct (map fst (to_dict r))"
  unfolding to_dict_def by (rule distinct_clearjunk)

lemma to_dict_id: "map_of (to_dict r) ''id'' = Some (VStr (res_id r))"
  by (simp add: to_dict_def map_of_clearjunk)

lemma get_changed_fields_eq:
  "get_changed_fields old new =
     {k \<in> fst ` set (to_dict new).
        k \<notin> {''revision_number'', ''updated_at''}
        \<and> (case old of
             None \<Rightarrow> True
           | Some old_r \<Rightarrow> map_of (to_dict old_r) k \<noteq> map_of (to_dict new) k)}"
proof (cases old)
  case None
  then show ?thesis by (auto simp: get_changed_fields_def)
next
  case (Some old_r)
  have "k \<in> fst ` set (to_dict new) \<Longrightarrow>
          (\<exists>v. (k, v) \<in> set (to_dict old_r) \<and> v = dict_get (to_dict new) k)
          \<longleftrightarrow> map_of (to_dict old_r) k = map_of (to_dict new) k" for k
  proof -
    assume "k \<in> fst ` set (to_dict new)"
    then obtain v' where v': "map_of (to_dict new) k = Some v'"
      by (metis domD dom_map_of_conv_image_fst)
    then have "dict_get (to_dict new) k = v'"
      by (simp add: dict_get_def)
    with v' show ?thesis by simp
  qed
  with Some show ?thesis
    by (auto simp: get_changed_fields_def Let_def fold_discard)
qed

lemma created_fields_nonempty: "get_changed_fields None new \<noteq> {}"
proof -
  have "''id'' \<in> fst ` set (to_dict new)"
    using to_dict_id [of new] by (metis domI dom_map_of_conv_image_fst)
  then have "''id'' \<in> get_changed_fields None new"
    by (simp add: get_changed_fields_eq)
  then show ?thesis by blast
qed

lemma changed_in_incoming_iff:
  "get_changed_fields (Some old) new \<noteq> {} \<longleftrightarrow> changed_in_incoming old new"
proof
  assume "get_changed_fields (Some old) new \<noteq> {}"
  then obtain k where k: "k \<in> fst ` set (to_dict new)"
    "k \<notin> {''revision_number'', ''updated_at''}"
    "map_of (to_dict old) k \<noteq> map_of (to_dict new) k"
    unfolding get_changed_fields_eq by auto
  from k(1) obtain v where v: "(k, v) \<in> set (to_dict new)"
    by auto
  then have "map_of (to_dict new) k = Some v"
    by simp
  with k(3) have "map_of (to_dict old) k \<noteq> Some v"
    by simp
  with k(2) v show "changed_in_incoming old new"
    unfolding changed_in_incoming_def list_ex_iff by blast
next
  assume "changed_in_incoming old new"
  then obtain k v where kv: "(k, v) \<in> set (to_dict new)"
    "k \<notin> {''revision_number'', ''updated_at''}"
    "map_of (to_dict old) k \<noteq> Some v"
    unfolding changed_in_incoming_def list_ex_iff by blast
  from kv(1) have "map_of (to_dict new) k = Some v"
    by simp
  with kv(3) have "map_of (to_dict old) k \<noteq> map_of (to_dict new) k"
    by simp
  moreover from kv(1) have "k \<in> fst ` set (to_dict new)"
    by force
  ultimately have "k \<in> get_changed_fields (Some old) new"
    using kv(2) unfolding get_changed_fields_eq by simp
  then show "get_changed_fields (Some old) new \<noteq> {}"
    by blast
qed

lemma differing_fields_eq:
  "differing_fields old new =
     {k. k \<notin> {''revision_number'', ''updated_at''}
         \<and> (case old of None \<Rightarrow> None | Some old_r \<Rightarrow> map_of (to_dict old_r) k)
             \<noteq> map_of (to_dict new) k}"
  apply (cases old)
   apply (auto simp: differing_fields_def Let_def)
     apply (metis domIff dom_map_of_conv_image_fst option.distinct(1))
  apply (metis domIff dom_map_of_conv_image_fst)
  done

subsection \<open>Accepted updates\<close>

lemma update_outcome:
  assumes "is_stale self rtype resource = Inr False" and "type_cache self rtype = Inr d"
  shows "record_resource_update self ctx rtype resource =
           (store self rtype (AList.update (res_id resource) resource d),
            if get_changed_fields (map_of d (res_id resource)) resource = {} then Inr None
            else Inr (Some (AFTER_UPDATE rtype ctx
                              (get_changed_fields (map_of d (res_id resource)) resource)
                              (map_of d (res_id resource)) resource (res_id resource))))"
  using assms by (simp add: record_resource_update_def Let_def)

lemma update_accepted:
  assumes "well_formed self" and "rtype \<in> set (resource_types self)"
    and "\<not> stale_rule self rtype resource"
  shows "snd (record_resource_update self ctx rtype resource) =
           (if get_changed_fields (live self rtype (res_id resource)) resource = {}
            then Inr None
            else Inr (Some (AFTER_UPDATE rtype ctx
                              (get_changed_fields (live self rtype (res_id resource)) resource)
                              (live self rtype (res_id resource)) resource (res_id resource))))"
    and "live (fst (record_resource_update self ctx rtype resource)) rtype obj_id =
           (if obj_id = res_id resource then Some resource else live self rtype obj_id)"
    and "tombstoned (fst (record_resource_update self ctx rtype resource)) rtype obj_id =
           tombstoned self rtype obj_id"
proof -
  from assms(1,2) obtain d deleted where
    d: "map_of (cache_by_type_and_id self) rtype = Some d"
    and cache: "type_cache self rtype = Inr d"
    by (rule tracked_entries)
  from assms have fresh: "is_stale self rtype resource = Inr False"
    by (simp add: is_stale_rule)
  have existing: "live self rtype i = map_of d i" for i
    using d by (simp add: live_def)
  from update_outcome [OF fresh cache, of ctx]
  show "snd (record_resource_update self ctx rtype resource) =
           (if get_changed_fields (live self rtype (res_id resource)) resource = {}
            then Inr None
            else Inr (Some (AFTER_UPDATE rtype ctx
                              (get_changed_fields (live self rtype (res_id resource)) resource)
                              (live self rtype (res_id resource)) resource (res_id resource))))"
    by (simp add: existing)
  from update_outcome [OF fresh cache, of ctx]
  show "live (fst (record_resource_update self ctx rtype resource)) rtype obj_id =
           (if obj_id = res_id resource then Some resource else live self rtype obj_id)"
    by (simp add: live_store update_conv' existing)
  show "tombstoned (fst (record_resource_update self ctx rtype resource)) rtype obj_id =
           tombstoned self rtype obj_id"
    by simp
qed

lemma same_but_revision_unchanged:
  assumes "same_but_revision existing resource"
  shows "get_changed_fields (Some existing) resource = {}"
  using assms by (auto simp: get_changed_fields_eq same_but_revision_def)

lemma tracked_get:
  assumes "well_formed self" and "rtype \<in> set (resource_types self)"
  shows "get_resource_by_id self rtype obj_id = Inr (live self rtype obj_id)"
proof -
  from assms obtain d deleted where "map_of (cache_by_type_and_id self) rtype = Some d"
    by (rule tracked_entries)
  with assms(2) show ?thesis by (simp add: get_resource_by_id_live)
qed

lemma holding_a_facts:
  "well_formed holding_a"
  "''port'' \<in> set (resource_types holding_a)"
  "live holding_a ''port'' ''a'' = Some existing_a"
  "\<not> tombstoned holding_a ''port'' ''a''"
  by (simp_all add: holding_a_eq well_formed_def live_def tombstoned_def)

subsection \<open>Reads\<close>






lemma untracked_reads:
  assumes "rtype \<notin> set (resource_types self)"
  shows "get_resource_by_id self rtype obj_id = Inl (RuntimeError rtype)"
    and "match_resources_with_func self rtype matcher = Inl (RuntimeError rtype)"
    and "get_resources self rtype filters = Inl (RuntimeError rtype)"
  using assms
  by (simp_all add: get_resource_by_id_def match_resources_with_func_def get_resources_def
        type_cache_def)

lemma untracked_writes:
  assumes "well_formed self" and "rtype \<notin> set (resource_types self)"
  shows "record_resource_update self ctx rtype resource = (self, Inl (KeyError rtype))"
    and "record_resource_delete self ctx rtype resource_id = (self, Inl (KeyError rtype))"
  using untracked_entries(2) [OF assms]
  by (simp_all add: record_resource_update_def record_resource_delete_def is_stale_def)


subsection \<open>Tombstoned ids are not live while only updates and deletions run\<close>

lemma delete_effect:
  assumes "well_formed self" and "rtype \<in> set (resource_types self)"
  shows "tombstoned (fst (record_resource_delete self ctx rtype resource_id)) rt obj_id =
           (tombstoned self rt obj_id \<or> rt = rtype \<and> obj_id = resource_id)"
    and "live (fst (record_resource_delete self ctx rtype resource_id)) rt obj_id =
           (if rt = rtype \<and> obj_id = resource_id then None else live self rt obj_id)"
proof -
  from assms obtain deleted d where
    deleted: "map_of (deleted_ids_by_type self) rtype = Some deleted"
    and d: "map_of (cache_by_type_and_id self) rtype = Some d"
    and once: "record_resource_delete self ctx rtype resource_id =
       (store (self\<lparr>deleted_ids_by_type :=
                       AList.update rtype (insert resource_id deleted)
                         (deleted_ids_by_type self)\<rparr>)
              rtype (AList.delete resource_id d),
        Inr (AFTER_DELETE rtype ctx (map_of d resource_id) resource_id))"
    by (rule delete_tracked)
  show "tombstoned (fst (record_resource_delete self ctx rtype resource_id)) rt obj_id =
           (tombstoned self rt obj_id \<or> rt = rtype \<and> obj_id = resource_id)"
    using once deleted by (auto simp: tombstoned_def update_conv')
  show "live (fst (record_resource_delete self ctx rtype resource_id)) rt obj_id =
           (if rt = rtype \<and> obj_id = resource_id then None else live self rt obj_id)"
    using once d by (simp add: live_def delete_conv')
qed

lemma push_keeps_disjoint:
  assumes "well_formed self" and "is_push op"
    and "\<forall>rt i. tombstoned self rt i \<longrightarrow> live self rt i = None"
  shows "\<forall>rt i. tombstoned (perform self op) rt i \<longrightarrow> live (perform self op) rt i = None"
proof (cases op)
  case (Bulk_flood bulk_pull)
  with assms(2) show ?thesis by simp
next
  case (Record_update ctx rtype resource)
  have "live (fst (record_resource_update self ctx rtype resource)) rt i = None"
    if "tombstoned self rt i" for rt i
    using update_live [of self ctx rtype resource rt i] that assms(3)
    by (auto dest: is_stale_False(1))
  with Record_update show ?thesis by simp
next
  case (Record_delete ctx rtype resource_id)
  show ?thesis
  proof (cases "rtype \<in> set (resource_types self)")
    case True
    with assms(1,3) Record_delete show ?thesis
      by (simp add: delete_effect)
  next
    case False
    with assms(1,3) Record_delete show ?thesis
      by (simp add: untracked_writes)
  qed
qed

lemma pushes_keep_disjoint:
  assumes "list_all is_push ops" and "well_formed self"
    and "\<forall>rt i. tombstoned self rt i \<longrightarrow> live self rt i = None"
  shows "\<forall>rt i. tombstoned (run self ops) rt i \<longrightarrow> live (run self ops) rt i = None"
  using assms
proof (induction ops arbitrary: self)
  case Nil
  then show ?case by simp
next
  case (Cons op ops)
  from Cons.prems have push: "is_push op" "list_all is_push ops" by simp_all
  have "well_formed (perform self op)"
    using push(1) Cons.prems(2) by (rule push_keeps_well_formed)
  moreover have "\<forall>rt i. tombstoned (perform self op) rt i \<longrightarrow> live (perform self op) rt i = None"
    using Cons.prems(2) push(1) Cons.prems(3) by (rule push_keeps_disjoint)
  ultimately show ?case
    using Cons.IH [of "perform self op"] push(2) by simp
qed

lemma init_no_tombstones: "\<not> tombstoned (init rts) rt i"
  by (auto simp: tombstoned_def init_def map_of_clearjunk map_of_map_restrict restrict_map_def
           split: option.splits)

lemma pushes_from_init_disjoint:
  assumes "list_all is_push ops" and "tombstoned (run (init rts) ops) rt i"
  shows "live (run (init rts) ops) rt i = None"
  using pushes_keep_disjoint [OF assms(1) well_formed_init, of rts] init_no_tombstones assms(2)
  by blast

section \<open>Revision monotonicity\<close>

text \<open>
  C2. Revision monotonicity: over every sequence of calls of \<open>record_resource_update\<close>
  (for any types and resources, so in particular for one type and id), an id that has a
  live entry keeps one, and the stored \<open>revision_number\<close> of that entry is never lower
  after the calls than before. A single call is the sequence of length one, and the cache
  \<open>self\<close> is arbitrary, so the statement covers every call of every sequence.
\<close>

theorem revision_monotonic:
  assumes "list_all is_update ops"
    and "get_resource_by_id self rtype obj_id = Inr (Some before)"
  shows "\<exists>after. get_resource_by_id (run self ops) rtype obj_id = Inr (Some after)
                 \<and> revision_number before \<le> revision_number after"
  using assms
proof (induction ops arbitrary: self before)
  case Nil
  then show ?case by simp
next
  case (Cons op ops)
  from Cons.prems(1) obtain ctx rtype' resource
    where op: "op = Record_update ctx rtype' resource"
    by (cases op) auto
  let ?next = "fst (record_resource_update self ctx rtype' resource)"
  from Cons.prems(2) have tracked: "rtype \<in> set (resource_types self)"
    and dict: "map_of (cache_by_type_and_id self) rtype \<noteq> None"
    and live: "live self rtype obj_id = Some before"
    by (simp_all add: get_resource_by_id_live)
  from update_revision [OF live, of ctx rtype' resource] obtain mid where
    mid: "live ?next rtype obj_id = Some mid" "revision_number before \<le> revision_number mid"
    by blast
  have "get_resource_by_id ?next rtype obj_id = Inr (Some mid)"
    using tracked update_keeps_dicts [OF dict] mid(1) by (simp add: get_resource_by_id_live)
  moreover have "list_all is_update ops" using Cons.prems(1) by simp
  ultimately obtain after where
    "get_resource_by_id (run ?next ops) rtype obj_id = Inr (Some after)"
    "revision_number mid \<le> revision_number after"
    using Cons.IH by blast
  with mid(2) op show ?case by auto
qed

theorem revision_monotonic_witness:
  "list_all is_update [Record_update () ''port'' incoming_a, Record_update () ''port'' existing_a]
   \<and> get_resource_by_id holding_a ''port'' ''a'' = Inr (Some existing_a)
   \<and> (\<exists>after. get_resource_by_id
          (run holding_a
             [Record_update () ''port'' incoming_a, Record_update () ''port'' existing_a])
          ''port'' ''a'' = Inr (Some after)
        \<and> revision_number existing_a \<le> revision_number after)"
proof -
  have 1: "list_all is_update
             [Record_update () ''port'' incoming_a, Record_update () ''port'' existing_a]"
    by simp
  have 2: "get_resource_by_id holding_a ''port'' ''a'' = Inr (Some existing_a)"
    by (simp add: holding_a_eq get_resource_by_id_def type_cache_def)
  from 1 2 revision_monotonic [OF 1 2] show ?thesis by blast
qed

section \<open>Stale updates change nothing\<close>

text \<open>
  C10. Atomicity of stale rejection: when an update for a tracked type is stale (its id
  is tombstoned, or the live entry has a strictly greater revision number),
  \<open>record_resource_update\<close> returns the cache it was given, with every type's live
  mapping and every type's tombstone set as they were, and emits no notification.
\<close>

theorem stale_update_changes_nothing:
  assumes "well_formed self" and "rtype \<in> set (resource_types self)"
    and "stale_rule self rtype resource"
  shows "record_resource_update self ctx rtype resource = (self, Inr None)"
  using is_stale_rule [OF assms(1,2), of resource] assms(3)
  by (simp add: record_resource_update_def)

theorem stale_update_changes_nothing_witness:
  "well_formed holding_a \<and> ''port'' \<in> set (resource_types holding_a)
   \<and> stale_rule holding_a ''port'' (port ''a'' 0 [])
   \<and> record_resource_update holding_a () ''port'' (port ''a'' 0 []) = (holding_a, Inr None)"
proof -
  have 1: "well_formed holding_a"
    by (simp add: holding_a_eq well_formed_def)
  have 2: "''port'' \<in> set (resource_types holding_a)"
    by (simp add: holding_a_eq)
  have 3: "stale_rule holding_a ''port'' (port ''a'' 0 [])"
    by (simp add: holding_a_eq stale_rule_def tombstoned_def live_def port_def existing_a_def)
  from 1 2 3 stale_update_changes_nothing [OF 1 2 3, of "()"] show ?thesis by simp
qed

section \<open>Tombstone finality\<close>

text \<open>
  For a tracked type, once \<open>record_resource_delete\<close> has been called for an id, every
  later call of \<open>record_resource_update\<close> with a resource of that id, whatever its
  revision number and whatever operations ran in between, changes nothing and emits
  nothing. When the operations in between are calls of \<open>record_resource_update\<close> and
  \<open>record_resource_delete\<close> (for any types, resources and ids),
  \<open>get_resource_by_id\<close> for the id is absent after it.
\<close>

lemma update_after_delete:
  assumes "well_formed self" and "rtype \<in> set (resource_types self)"
    and "res_id resource = obj_id"
  shows "let later = run (fst (record_resource_delete self ctx rtype obj_id)) ops
         in record_resource_update later ctx' rtype resource = (later, Inr None)
            \<and> (list_all is_push ops \<longrightarrow>
                 get_resource_by_id (fst (record_resource_update later ctx' rtype resource))
                   rtype obj_id = Inr None)"
proof -
  let ?once = "fst (record_resource_delete self ctx rtype obj_id)"
  let ?later = "run ?once ops"
  from assms(1,2) obtain deleted d where
    deleted: "map_of (deleted_ids_by_type self) rtype = Some deleted"
    and d: "map_of (cache_by_type_and_id self) rtype = Some d"
    and once: "record_resource_delete self ctx rtype obj_id =
       (store (self\<lparr>deleted_ids_by_type :=
                       AList.update rtype (insert obj_id deleted)
                         (deleted_ids_by_type self)\<rparr>)
              rtype (AList.delete obj_id d),
        Inr (AFTER_DELETE rtype ctx (map_of d obj_id) obj_id))"
    by (rule delete_tracked)
  have marked: "tombstoned ?once rtype obj_id" and gone: "live ?once rtype obj_id = None"
    using once deleted d by (simp_all add: tombstoned_def live_def update_conv' delete_conv')
  have wf: "well_formed ?later"
    using assms(1) by (simp add: run_keeps_well_formed well_formed_delete)
  have tracked: "rtype \<in> set (resource_types ?later)"
    using assms(2) by simp
  have "tombstoned ?later rtype obj_id"
    using marked by (rule run_keeps_tombstone)
  then have "stale_rule ?later rtype resource"
    using assms(3) by (simp add: stale_rule_def)
  with wf tracked have "is_stale ?later rtype resource = Inr True"
    by (simp add: is_stale_rule)
  then have ignored:
    "record_resource_update ?later ctx' rtype resource = (?later, Inr None)"
    by (simp add: record_resource_update_def)
  have "get_resource_by_id ?later rtype obj_id = Inr None" if "list_all is_push ops"
  proof -
    from that marked gone have "live ?later rtype obj_id = None"
      using pushes_keep_tombstone [of ops ?once rtype obj_id] by simp
    with wf tracked show ?thesis by (simp add: tracked_get)
  qed
  with ignored show ?thesis unfolding Let_def by simp
qed

text \<open>
  C1. Tombstone finality: the specification has \<open>get_resource_by_id\<close> absent after every
  call of \<open>record_resource_update\<close> that follows a \<open>record_resource_delete\<close> of its
  id. On a cache that tracks \<open>port\<close>, after \<open>record_resource_delete\<close> for the port
  \<open>a\<close>, a bulk load that pulls the port \<open>a\<close> stores it in the live mapping, against
  the tombstone. The update for \<open>a\<close> that follows is discarded as stale and changes
  nothing, so \<open>get_resource_by_id\<close> returns the stored resource, not the absent value.
\<close>

theorem update_after_delete_finds_bulk_loaded:
  "tombstoned (run (fst (record_resource_delete ports () ''port'' ''a'')) [Bulk_flood pull_a])
     ''port'' ''a''
   \<and> record_resource_update
         (run (fst (record_resource_delete ports () ''port'' ''a'')) [Bulk_flood pull_a])
         () ''port'' incoming_a =
       (run (fst (record_resource_delete ports () ''port'' ''a'')) [Bulk_flood pull_a],
        Inr None)
   \<and> get_resource_by_id
         (fst (record_resource_update
                 (run (fst (record_resource_delete ports () ''port'' ''a''))
                    [Bulk_flood pull_a])
                 () ''port'' incoming_a))
         ''port'' ''a'' = Inr (Some existing_a)"
proof -
  have later: "run (fst (record_resource_delete ports () ''port'' ''a'')) [Bulk_flood pull_a] =
      \<lparr>resource_types = [''port''],
       cache_by_type_and_id = [(''port'', [(''a'', existing_a)])],
       deleted_ids_by_type = [(''port'', {''a''})]\<rparr>"
    by (simp add: ports_def init_def run_def record_resource_delete_def type_cache_def
          bulk_flood_cache_def store_def pull_a_def existing_a_def port_def)
  have stale: "record_resource_update
      \<lparr>resource_types = [''port''],
       cache_by_type_and_id = [(''port'', [(''a'', existing_a)])],
       deleted_ids_by_type = [(''port'', {''a''})]\<rparr> () ''port'' incoming_a =
      (\<lparr>resource_types = [''port''],
        cache_by_type_and_id = [(''port'', [(''a'', existing_a)])],
        deleted_ids_by_type = [(''port'', {''a''})]\<rparr>, Inr None)"
    by (simp add: record_resource_update_def is_stale_def incoming_a_def port_def)
  have found: "get_resource_by_id
      \<lparr>resource_types = [''port''],
       cache_by_type_and_id = [(''port'', [(''a'', existing_a)])],
       deleted_ids_by_type = [(''port'', {''a''})]\<rparr> ''port'' ''a'' = Inr (Some existing_a)"
    by (simp add: get_resource_by_id_def type_cache_def)
  have marked: "tombstoned
      \<lparr>resource_types = [''port''],
       cache_by_type_and_id = [(''port'', [(''a'', existing_a)])],
       deleted_ids_by_type = [(''port'', {''a''})]\<rparr> ''port'' ''a''"
    by (simp add: tombstoned_def)
  from marked stale found show ?thesis
    by (simp only: later fst_conv simp_thms)
qed

section \<open>Deletion\<close>

text \<open>
  C6. Delete is idempotent and always applied: for a tracked type,
  \<open>record_resource_delete\<close> emits a deletion notification that carries the previous
  snapshot (absent when the id was not live), adds the id to the type's tombstone set and
  removes its live entry, leaving the other ids as they were. A second call for the same
  id emits a notification again, with an absent previous snapshot, and returns the very
  cache that the first call left.
\<close>

theorem delete_idempotent:
  assumes "well_formed self" and "rtype \<in> set (resource_types self)"
  shows "snd (record_resource_delete self ctx rtype resource_id) =
           Inr (AFTER_DELETE rtype ctx (live self rtype resource_id) resource_id)
       \<and> tombstoned (fst (record_resource_delete self ctx rtype resource_id)) rtype obj_id =
           (obj_id = resource_id \<or> tombstoned self rtype obj_id)
       \<and> live (fst (record_resource_delete self ctx rtype resource_id)) rtype obj_id =
           (if obj_id = resource_id then None else live self rtype obj_id)
       \<and> record_resource_delete (fst (record_resource_delete self ctx rtype resource_id))
             ctx' rtype resource_id =
           (fst (record_resource_delete self ctx rtype resource_id),
            Inr (AFTER_DELETE rtype ctx' None resource_id))"
proof -
  from assms obtain deleted d where
    deleted: "map_of (deleted_ids_by_type self) rtype = Some deleted"
    and d: "map_of (cache_by_type_and_id self) rtype = Some d"
    and once: "record_resource_delete self ctx rtype resource_id =
       (store (self\<lparr>deleted_ids_by_type :=
                       AList.update rtype (insert resource_id deleted)
                         (deleted_ids_by_type self)\<rparr>)
              rtype (AList.delete resource_id d),
        Inr (AFTER_DELETE rtype ctx (map_of d resource_id) resource_id))"
    by (rule delete_tracked)
  let ?once = "store (self\<lparr>deleted_ids_by_type :=
                       AList.update rtype (insert resource_id deleted)
                         (deleted_ids_by_type self)\<rparr>)
              rtype (AList.delete resource_id d)"
  have notified: "snd (record_resource_delete self ctx rtype resource_id) =
           Inr (AFTER_DELETE rtype ctx (live self rtype resource_id) resource_id)"
    using once d by (simp add: live_def)
  have tomb: "tombstoned ?once rtype obj_id = (obj_id = resource_id \<or> tombstoned self rtype obj_id)"
    using deleted by (simp add: tombstoned_def update_conv')
  have gone: "live ?once rtype obj_id = (if obj_id = resource_id then None else live self rtype obj_id)"
    using d by (simp add: live_def delete_conv')
  have "type_cache ?once rtype = Inr (AList.delete resource_id d)"
    using assms(2) by (simp add: type_cache_Inr)
  moreover have "map_of (deleted_ids_by_type ?once) rtype = Some (insert resource_id deleted)"
    by (simp add: update_conv')
  ultimately have "record_resource_delete ?once ctx' rtype resource_id =
       (store (?once\<lparr>deleted_ids_by_type :=
                       AList.update rtype (insert resource_id (insert resource_id deleted))
                         (deleted_ids_by_type ?once)\<rparr>)
              rtype (AList.delete resource_id (AList.delete resource_id d)),
        Inr (AFTER_DELETE rtype ctx' (map_of (AList.delete resource_id d) resource_id)
               resource_id))"
    by (simp add: record_resource_delete_def Let_def)
  moreover have "store (?once\<lparr>deleted_ids_by_type :=
                       AList.update rtype (insert resource_id (insert resource_id deleted))
                         (deleted_ids_by_type ?once)\<rparr>)
              rtype (AList.delete resource_id (AList.delete resource_id d)) = ?once"
    by (simp add: store_def delete_idem)
  ultimately have twice: "record_resource_delete ?once ctx' rtype resource_id =
           (?once, Inr (AFTER_DELETE rtype ctx' None resource_id))"
    by (simp add: delete_conv')
  from notified tomb gone twice once show ?thesis by simp
qed

theorem delete_idempotent_witness:
  "well_formed holding_a \<and> ''port'' \<in> set (resource_types holding_a)
   \<and> snd (record_resource_delete holding_a () ''port'' ''a'') =
         Inr (AFTER_DELETE ''port'' () (Some existing_a) ''a'')
   \<and> record_resource_delete (fst (record_resource_delete holding_a () ''port'' ''a''))
         () ''port'' ''a'' =
       (fst (record_resource_delete holding_a () ''port'' ''a''),
        Inr (AFTER_DELETE ''port'' () None ''a''))"
proof -
  have 1: "well_formed holding_a"
    by (simp add: holding_a_eq well_formed_def)
  have 2: "''port'' \<in> set (resource_types holding_a)"
    by (simp add: holding_a_eq)
  have 3: "live holding_a ''port'' ''a'' = Some existing_a"
    by (simp add: holding_a_eq live_def)
  from delete_idempotent [OF 1 2, of "()" "''a''" "''a''" "()"] 1 2 3
  show ?thesis by simp
qed

section \<open>The staleness rule and unordered delivery\<close>

text \<open>
  C3, as amended. For a tracked type, an incoming update is discarded as stale exactly when
  its id is tombstoned or a live entry has a strictly greater revision number; a stale
  update changes nothing and emits nothing, and any other update, an equal revision
  included, is stored. When updates \<open>r5\<close>, \<open>r3\<close>, \<open>r7\<close> for one id that is neither live
  nor tombstoned, with the revisions 5, 3 and 7, are applied in that order, revision 7 ends
  up stored; the call for \<open>r5\<close> (a create) emits a notification; the call for \<open>r3\<close> is
  ignored as stale because of its revision (the id is not tombstoned) and changes nothing;
  and the call for \<open>r7\<close> replaces the entry and emits a notification exactly when
  some field of \<open>r7\<close>, other than \<open>revision_number\<close> and \<open>updated_at\<close>, is missing
  from \<open>r5\<close> or has another value there (a field that \<open>r5\<close> alone has does not count).
\<close>

theorem staleness_and_unordered_delivery:
  assumes "well_formed self" and "rtype \<in> set (resource_types self)"
  shows "is_stale self rtype resource = Inr (stale_rule self rtype resource)
       \<and> (stale_rule self rtype resource \<longrightarrow>
            record_resource_update self ctx rtype resource = (self, Inr None))
       \<and> (\<not> stale_rule self rtype resource \<longrightarrow>
            live (fst (record_resource_update self ctx rtype resource)) rtype (res_id resource)
              = Some resource)
       \<and> (\<not> tombstoned self rtype obj_id \<and> live self rtype obj_id = None
            \<and> res_id r5 = obj_id \<and> res_id r3 = obj_id \<and> res_id r7 = obj_id
            \<and> revision_number r5 = 5 \<and> revision_number r3 = 3 \<and> revision_number r7 = 7
          \<longrightarrow> (let first = record_resource_update self ctx rtype r5;
                    second = record_resource_update (fst first) ctx rtype r3;
                    third = record_resource_update (fst second) ctx rtype r7
                in map_option revision_number (live (fst third) rtype obj_id) = Some 7
                   \<and> snd first = Inr (Some (AFTER_UPDATE rtype ctx
                                              (get_changed_fields None r5) None r5 obj_id))
                   \<and> emitted (snd first)
                   \<and> is_stale (fst first) rtype r3 = Inr True
                   \<and> \<not> tombstoned (fst first) rtype obj_id
                   \<and> second = (fst first, Inr None)
                   \<and> snd third =
                       (if changed_in_incoming r5 r7
                        then Inr (Some (AFTER_UPDATE rtype ctx
                                          (get_changed_fields (Some r5) r7) (Some r5) r7 obj_id))
                        else Inr None)
                   \<and> emitted (snd third) = changed_in_incoming r5 r7
                   \<and> unordered_delivery self ctx rtype r5 r3 r7 = changed_in_incoming r5 r7))"
proof (intro conjI impI)
  show rule: "is_stale self rtype resource = Inr (stale_rule self rtype resource)"
    using assms by (rule is_stale_rule)
  show "record_resource_update self ctx rtype resource = (self, Inr None)"
    if "stale_rule self rtype resource"
    using rule that by (simp add: record_resource_update_def)
  show "live (fst (record_resource_update self ctx rtype resource)) rtype (res_id resource)
          = Some resource"
    if "\<not> stale_rule self rtype resource"
    using update_accepted(2) [OF assms that, of ctx "res_id resource"] by simp
next
  assume scenario: "\<not> tombstoned self rtype obj_id \<and> live self rtype obj_id = None
            \<and> res_id r5 = obj_id \<and> res_id r3 = obj_id \<and> res_id r7 = obj_id
            \<and> revision_number r5 = 5 \<and> revision_number r3 = 3 \<and> revision_number r7 = 7"
  let ?first = "record_resource_update self ctx rtype r5"
  let ?s1 = "fst ?first"
  let ?third = "record_resource_update ?s1 ctx rtype r7"
  from scenario have fresh5: "\<not> stale_rule self rtype r5"
    by (simp add: stale_rule_def)
  have out1: "snd ?first = Inr (Some (AFTER_UPDATE rtype ctx
                                        (get_changed_fields None r5) None r5 obj_id))"
    using update_accepted(1) [OF assms fresh5, of ctx] scenario
    by (simp add: created_fields_nonempty)
  have live1: "live ?s1 rtype obj_id = Some r5"
    using update_accepted(2) [OF assms fresh5, of ctx obj_id] scenario by simp
  have tomb1: "\<not> tombstoned ?s1 rtype obj_id"
    using scenario by simp
  have wf1: "well_formed ?s1"
    using assms(1) by (rule well_formed_update)
  have tracked1: "rtype \<in> set (resource_types ?s1)"
    using assms(2) by simp
  have stale3: "stale_rule ?s1 rtype r3"
    using live1 scenario by (simp add: stale_rule_def)
  then have is_stale3: "is_stale ?s1 rtype r3 = Inr True"
    using wf1 tracked1 by (simp add: is_stale_rule)
  then have second: "record_resource_update ?s1 ctx rtype r3 = (?s1, Inr None)"
    by (simp add: record_resource_update_def)
  have fresh7: "\<not> stale_rule ?s1 rtype r7"
    using live1 tomb1 scenario by (simp add: stale_rule_def)
  have out3: "snd ?third =
                (if changed_in_incoming r5 r7
                 then Inr (Some (AFTER_UPDATE rtype ctx
                                   (get_changed_fields (Some r5) r7) (Some r5) r7 obj_id))
                 else Inr None)"
  proof -
    have "snd ?third =
            (if get_changed_fields (Some r5) r7 = {} then Inr None
             else Inr (Some (AFTER_UPDATE rtype ctx
                               (get_changed_fields (Some r5) r7) (Some r5) r7 obj_id)))"
      using update_accepted(1) [OF wf1 tracked1 fresh7, of ctx] live1 scenario by simp
    with changed_in_incoming_iff [of r5 r7] show ?thesis
      by (cases "get_changed_fields (Some r5) r7 = {}") simp_all
  qed
  have live3: "live (fst ?third) rtype obj_id = Some r7"
    using update_accepted(2) [OF wf1 tracked1 fresh7, of ctx obj_id] scenario by simp
  have rev3: "map_option revision_number (live (fst ?third) rtype obj_id) = Some 7"
    using live3 scenario by simp
  have emitted1: "emitted (snd ?first)"
    using out1 by (simp add: emitted_def)
  have emitted3: "emitted (snd ?third) = changed_in_incoming r5 r7"
    using out3 by (simp add: emitted_def)
  have claim: "unordered_delivery self ctx rtype r5 r3 r7 = changed_in_incoming r5 r7"
    unfolding unordered_delivery_def Let_def
    using second rev3 emitted1 emitted3 is_stale3 scenario by simp
  show "let first = record_resource_update self ctx rtype r5;
            second = record_resource_update (fst first) ctx rtype r3;
            third = record_resource_update (fst second) ctx rtype r7
        in map_option revision_number (live (fst third) rtype obj_id) = Some 7
           \<and> snd first = Inr (Some (AFTER_UPDATE rtype ctx
                                      (get_changed_fields None r5) None r5 obj_id))
           \<and> emitted (snd first)
           \<and> is_stale (fst first) rtype r3 = Inr True
           \<and> \<not> tombstoned (fst first) rtype obj_id
           \<and> second = (fst first, Inr None)
           \<and> snd third =
               (if changed_in_incoming r5 r7
                then Inr (Some (AFTER_UPDATE rtype ctx
                                  (get_changed_fields (Some r5) r7) (Some r5) r7 obj_id))
                else Inr None)
           \<and> emitted (snd third) = changed_in_incoming r5 r7
           \<and> unordered_delivery self ctx rtype r5 r3 r7 = changed_in_incoming r5 r7"
    unfolding Let_def
    using second rev3 out1 emitted1 is_stale3 tomb1 out3 emitted3 claim by simp
qed

theorem staleness_and_unordered_delivery_witness:
  "well_formed ports \<and> ''port'' \<in> set (resource_types ports)
   \<and> \<not> tombstoned ports ''port'' ''a'' \<and> live ports ''port'' ''a'' = None
   \<and> changed_in_incoming (port ''a'' 5 []) (port ''a'' 7 [(''name'', VStr ''x'')])
   \<and> unordered_delivery ports () ''port''
        (port ''a'' 5 []) (port ''a'' 3 []) (port ''a'' 7 [(''name'', VStr ''x'')])"
proof -
  let ?r5 = "port ''a'' 5 []" and ?r3 = "port ''a'' 3 []"
    and ?r7 = "port ''a'' 7 [(''name'', VStr ''x'')]"
  have 1: "well_formed ports"
    by (simp add: ports_def well_formed_init)
  have 2: "''port'' \<in> set (resource_types ports)"
    by (simp add: ports_def init_def)
  have 3: "\<not> tombstoned ports ''port'' ''a'' \<and> live ports ''port'' ''a'' = None
            \<and> res_id ?r5 = ''a'' \<and> res_id ?r3 = ''a'' \<and> res_id ?r7 = ''a''
            \<and> revision_number ?r5 = 5 \<and> revision_number ?r3 = 3 \<and> revision_number ?r7 = 7"
    by (simp add: ports_def init_def tombstoned_def live_def port_def)
  have 4: "changed_in_incoming ?r5 ?r7"
    by (simp add: changed_in_incoming_def port_def to_dict_def)
  from staleness_and_unordered_delivery [OF 1 2, of _ "()" "''a''" ?r5 ?r3 ?r7] 3
  have "unordered_delivery ports () ''port'' ?r5 ?r3 ?r7 = changed_in_incoming ?r5 ?r7"
    unfolding Let_def by blast
  with 1 2 3 4 show ?thesis by blast
qed

text \<open>
  C3, as stated, promises a notification from the call for revision 7. It fails when the
  three resources differ in their revision numbers only: the third call replaces the
  entry and emits nothing.
\<close>

theorem unordered_delivery_counterexample:
  "\<not> unordered_delivery ports () ''port'' (port ''a'' 5 []) (port ''a'' 3 []) (port ''a'' 7 [])"
  by (simp add: unordered_delivery_def Let_def cache_defs ports_def port_def insert_Diff_if)

section \<open>The changed fields of an update\<close>

text \<open>
  C4, as amended. The changed-field set is the set of the field names of the incoming
  resource whose value differs from the existing entry's value (every field name of the
  incoming resource when there is no existing entry), without \<open>revision_number\<close> and
  \<open>updated_at\<close>. It is the set of all field names whose values differ between the two
  whenever every field of the existing entry is a field of the incoming resource. It is
  the set that an accepted update puts in its notification. For the existing resource
  \<open>{id: a, revision_number: 1, name: x, status: up}\<close> and the incoming one
  \<open>{id: a, revision_number: 2, name: x, status: down}\<close> it is \<open>{status}\<close>.
\<close>

theorem changed_fields_of_incoming:
  "get_changed_fields old new =
     {k \<in> fst ` set (to_dict new).
        k \<notin> {''revision_number'', ''updated_at''}
        \<and> (case old of
             None \<Rightarrow> True
           | Some old_r \<Rightarrow> map_of (to_dict old_r) k \<noteq> map_of (to_dict new) k)}
   \<and> ((case old of
         None \<Rightarrow> True
       | Some old_r \<Rightarrow> fst ` set (to_dict old_r) \<subseteq> fst ` set (to_dict new))
      \<longrightarrow> get_changed_fields old new = differing_fields old new)
   \<and> (is_stale self rtype new = Inr False \<and> type_cache self rtype = Inr d
        \<and> get_changed_fields (map_of d (res_id new)) new \<noteq> {}
      \<longrightarrow> snd (record_resource_update self ctx rtype new) =
            Inr (Some (AFTER_UPDATE rtype ctx
                         (get_changed_fields (map_of d (res_id new)) new)
                         (map_of d (res_id new)) new (res_id new))))
   \<and> get_changed_fields (Some existing_a) incoming_a = {''status''}"
proof (intro conjI impI)
  show "get_changed_fields old new =
     {k \<in> fst ` set (to_dict new).
        k \<notin> {''revision_number'', ''updated_at''}
        \<and> (case old of
             None \<Rightarrow> True
           | Some old_r \<Rightarrow> map_of (to_dict old_r) k \<noteq> map_of (to_dict new) k)}"
    by (rule get_changed_fields_eq)
next
  assume sub: "case old of
         None \<Rightarrow> True
       | Some old_r \<Rightarrow> fst ` set (to_dict old_r) \<subseteq> fst ` set (to_dict new)"
  show "get_changed_fields old new = differing_fields old new"
  proof (cases old)
    case None
    then show ?thesis
      by (auto simp: get_changed_fields_eq differing_fields_eq)
         (metis domIff dom_map_of_conv_image_fst)+
  next
    case (Some old_r)
    with sub have "fst ` set (to_dict old_r) \<subseteq> fst ` set (to_dict new)" by simp
    then have "map_of (to_dict new) k = None \<Longrightarrow> map_of (to_dict old_r) k = None" for k
      by (metis domIff dom_map_of_conv_image_fst subsetD)
    with Some show ?thesis
      by (auto simp: get_changed_fields_eq differing_fields_eq)
         (metis domIff dom_map_of_conv_image_fst)+
  qed
next
  assume "is_stale self rtype new = Inr False \<and> type_cache self rtype = Inr d
        \<and> get_changed_fields (map_of d (res_id new)) new \<noteq> {}"
  then show "snd (record_resource_update self ctx rtype new) =
            Inr (Some (AFTER_UPDATE rtype ctx
                         (get_changed_fields (map_of d (res_id new)) new)
                         (map_of d (res_id new)) new (res_id new)))"
    by (simp add: update_outcome)
next
  show "get_changed_fields (Some existing_a) incoming_a = {''status''}"
    by (simp add: get_changed_fields_def existing_a_def incoming_a_def port_def to_dict_def
          dict_get_def insert_Diff_if)
qed

theorem changed_fields_of_incoming_witness:
  "fst ` set (to_dict existing_a) \<subseteq> fst ` set (to_dict incoming_a)
   \<and> is_stale holding_a ''port'' incoming_a = Inr False
   \<and> type_cache holding_a ''port'' = Inr [(''a'', existing_a)]
   \<and> get_changed_fields (Some existing_a) incoming_a = differing_fields (Some existing_a) incoming_a
   \<and> snd (record_resource_update holding_a () ''port'' incoming_a) =
       Inr (Some (AFTER_UPDATE ''port'' () {''status''} (Some existing_a) incoming_a ''a''))"
proof -
  have 1: "fst ` set (to_dict existing_a) \<subseteq> fst ` set (to_dict incoming_a)"
    by (simp add: existing_a_def incoming_a_def port_def to_dict_def)
  have 2: "is_stale holding_a ''port'' incoming_a = Inr False"
    by (simp add: holding_a_eq is_stale_def type_cache_def existing_a_def incoming_a_def
          port_def)
  have 3: "type_cache holding_a ''port'' = Inr [(''a'', existing_a)]"
    by (simp add: holding_a_eq type_cache_def)
  have 4: "res_id incoming_a = ''a''"
    by (simp add: incoming_a_def port_def)
  note main = changed_fields_of_incoming
    [of "Some existing_a" incoming_a holding_a "''port''" "[(''a'', existing_a)]" "()"]
  have "case Some existing_a of
          None \<Rightarrow> True
        | Some old_r \<Rightarrow> fst ` set (to_dict old_r) \<subseteq> fst ` set (to_dict incoming_a)"
    using 1 by simp
  with main [THEN conjunct2, THEN conjunct1]
  have 5: "get_changed_fields (Some existing_a) incoming_a =
      differing_fields (Some existing_a) incoming_a"
    by (rule mp)
  from main have 6: "get_changed_fields (Some existing_a) incoming_a = {''status''}"
    by blast
  from main 2 3 4 6 have "snd (record_resource_update holding_a () ''port'' incoming_a) =
       Inr (Some (AFTER_UPDATE ''port'' () {''status''} (Some existing_a) incoming_a ''a''))"
    by simp
  with 1 2 3 5 show ?thesis by blast
qed

text \<open>
  C4, as stated, counts every field name whose values differ. It fails for a field that
  only the existing entry has: \<open>_get_changed_fields\<close> starts from the fields of the
  incoming resource, so a field that the incoming resource lacks is never reported.
\<close>

theorem changed_fields_counterexample:
  "get_changed_fields (Some existing_a) incoming_without_name = {}
   \<and> differing_fields (Some existing_a) incoming_without_name = {''name''}
   \<and> get_changed_fields (Some existing_a) incoming_without_name
       \<noteq> differing_fields (Some existing_a) incoming_without_name"
proof -
  have 1: "get_changed_fields (Some existing_a) incoming_without_name = {}"
    by (simp add: get_changed_fields_def existing_a_def incoming_without_name_def port_def
          to_dict_def dict_get_def insert_Diff_if)
  have 2: "differing_fields (Some existing_a) incoming_without_name = {''name''}"
    by (auto simp: differing_fields_def existing_a_def incoming_without_name_def port_def
          to_dict_def Let_def)
  from 1 2 show ?thesis by simp
qed

section \<open>Updates without a change\<close>

text \<open>
  C5, as amended. For a tracked type, an update that is not stale (its id is not
  tombstoned and its revision number is not lower than the stored one) and that is
  identical to the existing live entry in all fields except \<open>revision_number\<close> and
  \<open>updated_at\<close> replaces the stored entry by the incoming resource and emits no local
  notification.
\<close>

theorem noop_update_replaces_silently:
  assumes "well_formed self" and "rtype \<in> set (resource_types self)"
    and "live self rtype (res_id resource) = Some existing"
    and "\<not> tombstoned self rtype (res_id resource)"
    and "revision_number existing \<le> revision_number resource"
    and "same_but_revision existing resource"
  shows "snd (record_resource_update self ctx rtype resource) = Inr None
       \<and> get_resource_by_id (fst (record_resource_update self ctx rtype resource)) rtype
           (res_id resource) = Inr (Some resource)"
proof -
  from assms(3-5) have fresh: "\<not> stale_rule self rtype resource"
    by (simp add: stale_rule_def)
  have "snd (record_resource_update self ctx rtype resource) = Inr None"
    using update_accepted(1) [OF assms(1,2) fresh, of ctx] assms(3)
      same_but_revision_unchanged [OF assms(6)]
    by simp
  moreover have "live (fst (record_resource_update self ctx rtype resource)) rtype
                   (res_id resource) = Some resource"
    using update_accepted(2) [OF assms(1,2) fresh, of ctx "res_id resource"] by simp
  moreover have "well_formed (fst (record_resource_update self ctx rtype resource))"
    using assms(1) by (rule well_formed_update)
  ultimately show ?thesis
    using assms(2) by (simp add: tracked_get)
qed

theorem noop_update_replaces_silently_witness:
  "well_formed holding_a \<and> ''port'' \<in> set (resource_types holding_a)
   \<and> live holding_a ''port'' (res_id (port ''a'' 1 (other_fields existing_a))) = Some existing_a
   \<and> revision_number existing_a \<le> revision_number (port ''a'' 4 (other_fields existing_a))
   \<and> same_but_revision existing_a (port ''a'' 4 (other_fields existing_a))
   \<and> snd (record_resource_update holding_a () ''port'' (port ''a'' 4 (other_fields existing_a)))
       = Inr None
   \<and> get_resource_by_id
         (fst (record_resource_update holding_a () ''port''
                 (port ''a'' 4 (other_fields existing_a))))
         ''port'' ''a'' = Inr (Some (port ''a'' 4 (other_fields existing_a)))"
proof -
  let ?r = "port ''a'' 4 (other_fields existing_a)"
  have id: "res_id ?r = ''a''" by (simp add: port_def)
  have 3: "live holding_a ''port'' (res_id ?r) = Some existing_a"
    by (simp add: id holding_a_facts)
  have 4: "\<not> tombstoned holding_a ''port'' (res_id ?r)"
    by (simp add: id holding_a_facts)
  have 5: "revision_number existing_a \<le> revision_number ?r"
    by (simp add: existing_a_def port_def)
  have 6: "same_but_revision existing_a ?r"
    by (auto simp: same_but_revision_def existing_a_def port_def to_dict_def)
  from noop_update_replaces_silently [OF holding_a_facts(1,2) 3 4 5 6, of "()"]
    holding_a_facts(1,2) 3 5 6
  show ?thesis by (simp add: port_def)
qed

text \<open>
  C5, as stated, has the stored entry replaced by every such update. It fails for one with
  a lower revision number: the update is stale, and the stored entry keeps its revision.
\<close>

theorem noop_update_counterexample:
  "same_but_revision existing_a stale_a
   \<and> get_resource_by_id holding_a ''port'' ''a'' = Inr (Some existing_a)
   \<and> record_resource_update holding_a () ''port'' stale_a = (holding_a, Inr None)
   \<and> get_resource_by_id (fst (record_resource_update holding_a () ''port'' stale_a))
         ''port'' ''a'' = Inr (Some existing_a)
   \<and> revision_number existing_a \<noteq> revision_number stale_a"
proof -
  have 1: "same_but_revision existing_a stale_a"
    by (auto simp: same_but_revision_def existing_a_def stale_a_def port_def to_dict_def)
  have 2: "get_resource_by_id holding_a ''port'' ''a'' = Inr (Some existing_a)"
    by (simp add: holding_a_eq get_resource_by_id_def type_cache_def)
  have 3: "record_resource_update holding_a () ''port'' stale_a = (holding_a, Inr None)"
    by (simp add: holding_a_eq record_resource_update_def is_stale_def type_cache_def
          existing_a_def stale_a_def port_def)
  have 4: "revision_number existing_a \<noteq> revision_number stale_a"
    by (simp add: existing_a_def stale_a_def port_def)
  from 1 2 3 4 show ?thesis by simp
qed

section \<open>Finding resources\<close>




section \<open>Types outside the tracked set\<close>

text \<open>
  C8. The specification has every operation addressed to a type outside the tracked set
  fail with one error, that of \<open>_type_cache\<close>: the \<open>RuntimeError\<close> "Resource cache not
  tracking".
  On a cache that tracks \<open>port\<close> only, \<open>get_resource_by_id\<close> for \<open>port\<close> returns
  and \<open>get_resource_by_id\<close> and \<open>get_resources\<close> for \<open>network\<close> raise that error;
  \<open>record_resource_update\<close> and \<open>record_resource_delete\<close> raise
  \<open>KeyError\<close> instead, from the subscript of \<open>_deleted_ids_by_type\<close> that precedes
  their call of \<open>_type_cache\<close>, and leave the cache as it was.
\<close>

theorem untracked_type_errors:
  "get_resource_by_id ports ''port'' ''a'' = Inr None
   \<and> get_resource_by_id ports ''network'' ''a'' = Inl (RuntimeError ''network'')
   \<and> get_resources ports ''network'' [] = Inl (RuntimeError ''network'')
   \<and> record_resource_update ports () ''network'' existing_a = (ports, Inl (KeyError ''network''))
   \<and> record_resource_delete ports () ''network'' ''a'' = (ports, Inl (KeyError ''network''))"
  by (simp add: ports_def init_def get_resource_by_id_def get_resources_def
        match_resources_with_func_def type_cache_def record_resource_update_def
        record_resource_delete_def is_stale_def)

section \<open>Tombstones and the bulk load\<close>

text \<open>
  C7. The specification has no id of a type's tombstone set in the type's live mapping, in
  any state that bulk loads, updates and deletions reach. After \<open>record_resource_delete\<close>
  for the port \<open>a\<close>, a bulk load that pulls the port \<open>a\<close> stores it:
  \<open>a\<close> is tombstoned and live at once. (While only updates and deletions run, from
  the initial cache on, a tombstoned id is never live: \<open>pushes_from_init_disjoint\<close>.)
\<close>

theorem bulk_load_revives_tombstoned:
  "tombstoned (run ports [Record_delete () ''port'' ''a'', Bulk_flood pull_a]) ''port'' ''a''
   \<and> get_resource_by_id (run ports [Record_delete () ''port'' ''a'', Bulk_flood pull_a])
        ''port'' ''a'' = Inr (Some existing_a)"
  by (simp add: ports_def init_def run_def tombstoned_def get_resource_by_id_def type_cache_def
        record_resource_delete_def bulk_flood_cache_def store_def pull_a_def existing_a_def
        port_def)

end
